theory Spec2Isabelle
  imports Complex_Main "HOL-Library.Sublist"
begin

section \<open>SafeMap front end: data model\<close>

text \<open>
  The program is the browser script \<^verbatim>\<open>static/js/app.js\<close> in its multi-route variants
  (\<^verbatim>\<open>src/unnamed/part_001\<close>, with scoring and the card template, and
  \<^verbatim>\<open>src/unnamed/part_000\<close>, with the detour and risk deltas).

  Conventions of the embedding:
  \<^item> a JavaScript number that is a finite value is a \<^typ>\<open>real\<close>: arithmetic is exact,
    so the rounding of IEEE doubles and the infinities are outside the model;
  \<^item> a number-valued property that may be missing, \<^verbatim>\<open>null\<close> or \<^verbatim>\<open>NaN\<close> is a
    \<^typ>\<open>real option\<close>, \<^term>\<open>None\<close> standing for every such non-number;
  \<^item> \<^verbatim>\<open>Math.round\<close> yields an integer, so rounded values are \<^typ>\<open>int\<close>;
  \<^item> a string is a \<^typ>\<open>string\<close> holding its UTF-8 bytes.
\<close>

type_synonym geometry = "(real \<times> real) list"

record route_stats =
  length_m :: "real option"
  mean_risk :: "real option"
  detour_m_vs_beta0 :: real
  risk_delta_vs_beta0 :: real

record route =
  beta :: real
  name :: "string option"
  color :: string
  geojson :: geometry
  stats :: route_stats

section \<open>Route scoring\<close>

text \<open>\<^verbatim>\<open>x || 0\<close> on a numeric property: every falsy value (missing, \<^verbatim>\<open>NaN\<close>, zero) reads as 0.\<close>

definition or_zero :: "real option \<Rightarrow> real" where
  "or_zero x = (case x of None \<Rightarrow> 0 | Some v \<Rightarrow> (if v = 0 then 0 else v))"

text \<open>\<^verbatim>\<open>Math.round\<close>: the nearest integer, a tie going towards plus infinity.\<close>

definition js_round :: "real \<Rightarrow> int" where
  "js_round x = \<lfloor>x + 1 / 2\<rfloor>"

text \<open>\<^verbatim>\<open>Math.max(1e-9, ...routes.map(r => r.stats.mean_risk || 0))\<close>\<close>

definition maxRisk :: "route list \<Rightarrow> real" where
  "maxRisk routes = fold max (map (\<lambda>r. or_zero (mean_risk (stats r))) routes) (1 / 10 ^ 9)"

definition safetyScore1 :: "real \<Rightarrow> route \<Rightarrow> int" where
  "safetyScore1 mx r =
     (let rel = or_zero (mean_risk (stats r)) / mx;
          score = js_round ((1 - min 1 rel) * 100)
      in max 0 (min 100 score))"

definition safetyScores :: "route list \<Rightarrow> int list" where
  "safetyScores routes = map (safetyScore1 (maxRisk routes)) routes"

record badge =
  text' :: string
  klass :: string

definition safetyBadge :: "int \<Rightarrow> badge" where
  "safetyBadge score =
     (if score \<ge> 80 then \<lparr>text' = ''Safe'', klass = ''badge badge-safe''\<rparr>
      else if score \<ge> 60 then \<lparr>text' = ''Moderate'', klass = ''badge badge-moderate''\<rparr>
      else \<lparr>text' = ''Caution'', klass = ''badge badge-caution''\<rparr>)"

section \<open>Number formatting\<close>

definition digit_char :: "nat \<Rightarrow> char" where
  "digit_char d = char_of (48 + d)"

fun show_nat :: "nat \<Rightarrow> string" where
  "show_nat n = (if n < 10 then [digit_char n] else show_nat (n div 10) @ [digit_char (n mod 10)])"

declare show_nat.simps [simp del]

text \<open>
  The string of an integer-valued number in a template literal. Negative zero prints as
  \<^verbatim>\<open>0\<close>, so the integer 0 has one rendering. (Values of \<^verbatim>\<open>1e21\<close> and above, which
  JavaScript prints in exponent notation, are outside the model.)
\<close>

definition show_int :: "int \<Rightarrow> string" where
  "show_int i = (if i < 0 then ''-'' @ show_nat (nat (- i)) else show_nat (nat i))"

text \<open>
  \<^verbatim>\<open>Number.prototype.toFixed(f)\<close>: the sign is split off first (so a small negative
  number prints as \<^verbatim>\<open>-0\<close>), then the integer \<open>n\<close> nearest to \<open>x * 10^f\<close> is taken, the
  larger one on a tie, and its digits are padded with zeros to \<open>f + 1\<close> places.
\<close>

definition toFixed :: "real \<Rightarrow> nat \<Rightarrow> string" where
  "toFixed x f =
     (let s = (if x < 0 then ''-'' else []);
          a = (if x < 0 then - x else x);
          n = nat \<lfloor>a * 10 ^ f + 1 / 2\<rfloor>;
          m = show_nat n;
          m' = (if f \<noteq> 0 \<and> length m \<le> f then replicate (f + 1 - length m) CHR ''0'' @ m else m);
          k = length m'
      in if f = 0 then s @ m'
         else s @ take (k - f) m' @ ''.'' @ drop (k - f) m')"

section \<open>Coordinate resolver\<close>

text \<open>
  White space as \<^verbatim>\<open>String.prototype.trim\<close> and the class \<^verbatim>\<open>\s\<close> see it, restricted to
  ASCII (tab, line feed, vertical tab, form feed, carriage return, space); the non-ASCII
  space characters are not modelled.
\<close>

definition is_space :: "char \<Rightarrow> bool" where
  "is_space c \<longleftrightarrow> c \<in> {CHR 0x09, CHR 0x0A, CHR 0x0B, CHR 0x0C, CHR 0x0D, CHR '' ''}"

definition is_digit :: "char \<Rightarrow> bool" where
  "is_digit c \<longleftrightarrow> c \<in> set ''0123456789''"

definition is_sep :: "char \<Rightarrow> bool" where
  "is_sep c \<longleftrightarrow> c = CHR '','' \<or> is_space c"

definition trim :: "string \<Rightarrow> string" where
  "trim s = rev (dropWhile is_space (rev (dropWhile is_space s)))"

definition digit_val :: "char \<Rightarrow> nat" where
  "digit_val c = of_char c - 48"

definition digits_val :: "string \<Rightarrow> nat" where
  "digits_val ds = foldl (\<lambda>acc c. 10 * acc + digit_val c) 0 ds"

definition strip_sign :: "string \<Rightarrow> string" where
  "strip_sign s = (case s of [] \<Rightarrow> [] | c # cs \<Rightarrow> if c = CHR ''+'' \<or> c = CHR ''-'' then cs else s)"

text \<open>The whole of \<open>s\<close> matches \<^verbatim>\<open>[+-]?\d+(\.\d+)?\<close>.\<close>

definition is_number :: "string \<Rightarrow> bool" where
  "is_number s =
     (let t = strip_sign s;
          i = takeWhile is_digit t;
          r = dropWhile is_digit t
      in i \<noteq> [] \<and>
         (case r of [] \<Rightarrow> True
          | c # fd \<Rightarrow> c = CHR ''.'' \<and> fd \<noteq> [] \<and> list_all is_digit fd))"

text \<open>
  \<^verbatim>\<open>s.match(/^([+-]?\d+(\.\d+)?)[,\s]+([+-]?\d+(\.\d+)?)$/)\<close>, returning the groups
  \<^verbatim>\<open>m[1]\<close> and \<^verbatim>\<open>m[3]\<close>. Neither number can hold a comma or white space and the
  separator run holds nothing else, so the only split that can match cuts \<open>s\<close> at its
  first separator character and after the run of separators that starts there.
\<close>

definition match_latlon :: "string \<Rightarrow> (string \<times> string) option" where
  "match_latlon s =
     (let m1 = takeWhile (\<lambda>c. \<not> is_sep c) s;
          rest = dropWhile (\<lambda>c. \<not> is_sep c) s;
          sp = takeWhile is_sep rest;
          m3 = dropWhile is_sep rest
      in if is_number m1 \<and> sp \<noteq> [] \<and> is_number m3 then Some (m1, m3) else None)"

text \<open>
  \<^verbatim>\<open>parseFloat\<close>: leading white space is skipped, then the longest prefix that is a
  decimal literal is read; \<^term>\<open>None\<close> is \<^verbatim>\<open>NaN\<close>. Exponent parts and the literal
  \<^verbatim>\<open>Infinity\<close> are left out: they need a letter, which no string matched by
  \<^const>\<open>match_latlon\<close> contains.
\<close>

definition parseFloat :: "string \<Rightarrow> real option" where
  "parseFloat s =
     (let t = dropWhile is_space s;
          neg = (case t of [] \<Rightarrow> False | c # _ \<Rightarrow> c = CHR ''-'');
          u = strip_sign t;
          i = takeWhile is_digit u;
          r = dropWhile is_digit u;
          f = (case r of [] \<Rightarrow> [] | c # fd \<Rightarrow> if c = CHR ''.'' then takeWhile is_digit fd else []);
          v = real (digits_val i) + real (digits_val f) / 10 ^ length f
      in if i = [] \<and> f = [] then None else Some (if neg then - v else v))"

record latlon =
  lat :: real
  lon :: real

definition tryParseLatLon :: "string \<Rightarrow> latlon option" where
  "tryParseLatLon text =
     (if text = [] then None
      else case match_latlon (trim text) of
        None \<Rightarrow> None
      | Some (m1, m3) \<Rightarrow>
          (case (parseFloat m1, parseFloat m3) of
             (Some la, Some lo) \<Rightarrow>
               if la < - 90 \<or> la > 90 \<or> lo < - 180 \<or> lo > 180 then None
               else Some \<lparr>lat = la, lon = lo\<rparr>
           | _ \<Rightarrow> None))"

section \<open>Route cards\<close>

text \<open>
  The value of a property read from an object literal. \<^verbatim>\<open>MODE_SPEEDS\<close> is written as an
  object literal, so \<^verbatim>\<open>MODE_SPEEDS[mode]\<close> finds its three own properties and, behind
  them, every property of \<^verbatim>\<open>Object.prototype\<close>: a function (or, for \<^verbatim>\<open>__proto__\<close>,
  the prototype object itself), which is truthy and whose numeric value is \<^verbatim>\<open>NaN\<close>.
\<close>

datatype jsval = Undefined | Number real | Inherited

definition object_prototype_keys :: "string list" where
  "object_prototype_keys =
     [''constructor'', ''__defineGetter__'', ''__defineSetter__'', ''hasOwnProperty'',
      ''__lookupGetter__'', ''__lookupSetter__'', ''isPrototypeOf'', ''propertyIsEnumerable'',
      ''toString'', ''valueOf'', ''__proto__'', ''toLocaleString'']"

definition MODE_SPEEDS :: "string \<Rightarrow> jsval" where
  "MODE_SPEEDS key =
     (if key = ''walk'' then Number (13 / 10)
      else if key = ''bike'' then Number (45 / 10)
      else if key = ''drive'' then Number 11
      else if key \<in> set object_prototype_keys then Inherited
      else Undefined)"

fun truthy :: "jsval \<Rightarrow> bool" where
  "truthy Undefined = False"
| "truthy (Number x) = (x \<noteq> 0)"
| "truthy Inherited = True"

definition js_or :: "jsval \<Rightarrow> jsval \<Rightarrow> jsval" where
  "js_or a b = (if truthy a then a else b)"

text \<open>\<^verbatim>\<open>ToNumber\<close>; \<^term>\<open>None\<close> is \<^verbatim>\<open>NaN\<close>.\<close>

fun to_number :: "jsval \<Rightarrow> real option" where
  "to_number Undefined = None"
| "to_number (Number x) = Some x"
| "to_number Inherited = None"

text \<open>
  \<^verbatim>\<open>length_m / speeds\<close>. The divisor is never the number zero where this is called
  (a zero is falsy and is replaced by the walking speed), so the quotient of the reals is
  the quotient the program computes.
\<close>

definition js_div :: "real \<Rightarrow> jsval \<Rightarrow> real option" where
  "js_div x v = (case to_number v of None \<Rightarrow> None | Some y \<Rightarrow> Some (x / y))"

definition fmtMinutes :: "real option \<Rightarrow> string" where
  "fmtMinutes seconds =
     (case seconds of None \<Rightarrow> ''NaNm'' | Some s \<Rightarrow> show_int (js_round (s / 60)) @ ''m'')"

definition fmtMiles :: "real \<Rightarrow> string" where
  "fmtMiles meters = toFixed (meters / (1609344 / 1000)) 1 @ '' mi''"

definition nameForBeta :: "real \<Rightarrow> string" where
  "nameForBeta b =
     (if b = 0 then ''Fastest Route'' else if b \<ge> 1 then ''Safest Route'' else ''Balanced Route'')"

definition featureChips :: "real \<Rightarrow> string list" where
  "featureChips b =
     (if b = 0 then [''Main thoroughfares'', ''Sidewalks available'', ''Direct route prioritizes speed'']
      else if b \<ge> 1 then [''Excellent safety features'', ''Sidewalks available'', ''Longer distance'']
      else [''Mixed safety features'', ''Sidewalks available'', ''Moderate complexity''])"

text \<open>
  A card of the route list, by the texts it shows (the markup around them, the link target
  and the fixed labels are left out).
\<close>

record card =
  card_rail :: string
  card_title :: string
  card_badge :: badge
  card_eta :: string
  card_miles :: string
  card_safety :: int
  card_chips :: "string list"
  card_subtitle :: string

text \<open>\<^verbatim>\<open>s || t\<close> on a string that may be missing: the empty string is falsy too.\<close>

definition str_or :: "string option \<Rightarrow> string \<Rightarrow> string" where
  "str_or s t = (case s of None \<Rightarrow> t | Some v \<Rightarrow> if v = [] then t else v)"

definition route_card :: "jsval \<Rightarrow> route \<Rightarrow> int \<Rightarrow> card" where
  "route_card speeds r safety =
     (let len = or_zero (length_m (stats r));
          etaSec = js_div len speeds
      in \<lparr>card_rail = (if color r = [] then ''#1d4ed8'' else color r),
          card_title = str_or (name r) (nameForBeta (beta r)),
          card_badge = safetyBadge safety,
          card_eta = fmtMinutes etaSec,
          card_miles = fmtMiles len,
          card_safety = safety,
          card_chips = featureChips (beta r),
          card_subtitle =
            (if beta r = 0 then ''Direct route optimized for walk''
             else if beta r \<ge> 1 then ''Maximum safety route for walk''
             else ''Good compromise between speed and safety for walk'')\<rparr>)"

text \<open>
  \<^verbatim>\<open>renderRouteChoicesTemplate(routes, mode = "walk")\<close>. The mode is \<^term>\<open>None\<close> when the
  caller passes \<^verbatim>\<open>undefined\<close>; the box is \<^term>\<open>None\<close> when the page has no element
  \<^verbatim>\<open>route-choices\<close>, and otherwise holds the cards shown.
\<close>

definition renderRouteChoicesTemplate ::
    "route list \<Rightarrow> string option \<Rightarrow> card list option \<Rightarrow> card list option" where
  "renderRouteChoicesTemplate routes mode_arg box =
     (case box of
        None \<Rightarrow> None
      | Some _ \<Rightarrow>
          (let mode = (case mode_arg of None \<Rightarrow> ''walk'' | Some m \<Rightarrow> m);
               speeds = js_or (MODE_SPEEDS mode) (MODE_SPEEDS ''walk'');
               scores = safetyScores routes
           in Some (map (\<lambda>(r, safety). route_card speeds r safety) (zip routes scores))))"

subsection \<open>The distance and risk deltas of the first card layout\<close>

definition beta_sym :: string where
  "beta_sym = [CHR 0xCE, CHR 0xB2]"

definition minus_sym :: string where
  "minus_sym = [CHR 0xE2, CHR 0x88, CHR 0x92]"

definition middot_sym :: string where
  "middot_sym = [CHR 0xC2, CHR 0xB7]"

definition detourTxt :: "real \<Rightarrow> string" where
  "detourTxt detour =
     (if \<bar>detour\<bar> < 1 then ''same distance as '' @ beta_sym @ ''=0''
      else if detour > 0 then ''+'' @ toFixed detour 0 @ '' m''
      else toFixed detour 0 @ '' m'')"

definition riskTxt :: "real \<Rightarrow> string" where
  "riskTxt riskDelta =
     (if \<bar>riskDelta\<bar> < 1 then ''same risk as '' @ beta_sym @ ''=0''
      else if riskDelta < 0 then minus_sym @ toFixed \<bar>riskDelta\<bar> 0 @ '' m'' @ middot_sym @ ''risk''
      else ''+'' @ toFixed riskDelta 0 @ '' m'' @ middot_sym @ ''risk'')"

section \<open>Display state\<close>

text \<open>
  Leaflet markers and GeoJSON layers are objects with identity: the script keeps references
  to them in its variables while the map holds the same objects, and a marker is moved in
  place. So the objects live in a store, and the variables and the map hold references.
  A viewport is recorded by the request that set it (the points to be bounded, not the
  box Leaflet computes from them); Leaflet's own failures on degenerate geometry are
  outside the model, as is the incident layer, which no route operation touches.
\<close>

datatype obj =
    MarkerObj "real \<times> real" string string
  | GeoJSONObj geometry string

datatype view =
    SetView "real \<times> real" nat
  | FitBounds "(real \<times> real) list" nat

record display =
  store :: "nat \<Rightarrow> obj option"
  next_ref :: nat
  attached :: "nat list"
  viewport :: view
  originMarker :: "nat option"
  destMarker :: "nat option"
  routeLayers :: "nat list"
  box :: "card list option"
  sheet_shown :: bool

text \<open>The page after the script has loaded: no markers, no routes, the default centre.\<close>

definition init_display :: "card list option \<Rightarrow> display" where
  "init_display b =
     \<lparr>store = (\<lambda>_. None), next_ref = 0, attached = [],
      viewport = SetView (386480784 / 10 ^ 7, - (903089436 / 10 ^ 7)) 15,
      originMarker = None, destMarker = None, routeLayers = [], box = b, sheet_shown = False\<rparr>"

text \<open>\<^verbatim>\<open>layer.remove()\<close>: the layer leaves the map; the object itself stays.\<close>

definition removeLayer :: "nat \<Rightarrow> display \<Rightarrow> display" where
  "removeLayer l s = s\<lparr>attached := removeAll l (attached s)\<rparr>"

definition clearRoutes :: "display \<Rightarrow> display" where
  "clearRoutes s = (fold removeLayer (routeLayers s) s)\<lparr>routeLayers := []\<rparr>"

text \<open>
  One round of the loop of \<^verbatim>\<open>drawMultiRoutes\<close>: a new GeoJSON layer is made from the
  route, added to the map, and pushed on \<^verbatim>\<open>routeLayers\<close> and on the local \<^verbatim>\<open>group\<close>.
\<close>

definition drawRoute :: "route \<Rightarrow> display \<times> nat list \<Rightarrow> display \<times> nat list" where
  "drawRoute r sg =
     (let s = fst sg; group = snd sg; layer = next_ref s
      in (s\<lparr>store := (store s)(layer \<mapsto> GeoJSONObj (geojson r) (color r)),
            next_ref := Suc layer,
            attached := attached s @ [layer],
            routeLayers := routeLayers s @ [layer]\<rparr>,
          group @ [layer]))"

definition layer_points :: "display \<Rightarrow> nat \<Rightarrow> (real \<times> real) list" where
  "layer_points s l =
     (case store s l of
        Some (GeoJSONObj g _) \<Rightarrow> g
      | Some (MarkerObj ll _ _) \<Rightarrow> [ll]
      | None \<Rightarrow> [])"

record route_result =
  mode :: "string option"
  snapped_origin :: latlon
  snapped_destination :: latlon
  routes :: "route list"

definition drawMultiRoutes :: "route_result \<Rightarrow> display \<Rightarrow> display" where
  "drawMultiRoutes data s =
     (let s1 = clearRoutes s;
          sg = fold drawRoute (routes data) (s1, []);
          s2 = fst sg; group = snd sg;
          s3 = (if group \<noteq> [] then s2\<lparr>viewport := FitBounds (concat (map (layer_points s2) group)) 40\<rparr>
                else s2)
      in s3\<lparr>box := renderRouteChoicesTemplate (routes data) (mode data) (box s3)\<rparr>)"

text \<open>
  The states the map goes through inside one call of \<^verbatim>\<open>drawMultiRoutes\<close>: one after
  each layer removed, one after the list is reset, one after each layer drawn, and the
  final one.
\<close>

definition clearRoutes_trace :: "display \<Rightarrow> display list" where
  "clearRoutes_trace s =
     map (\<lambda>k. fold removeLayer (take k (routeLayers s)) s) [1..<Suc (length (routeLayers s))]
     @ [clearRoutes s]"

definition drawMultiRoutes_trace :: "route_result \<Rightarrow> display \<Rightarrow> display list" where
  "drawMultiRoutes_trace data s =
     clearRoutes_trace s
     @ map (\<lambda>k. fst (fold drawRoute (take k (routes data)) (clearRoutes s, [])))
         [1..<Suc (length (routes data))]
     @ [drawMultiRoutes data s]"

text \<open>The route overlays on the map: the attached layers that are GeoJSON layers.\<close>

definition is_overlay :: "display \<Rightarrow> nat \<Rightarrow> bool" where
  "is_overlay s l = (case store s l of Some (GeoJSONObj _ _) \<Rightarrow> True | _ \<Rightarrow> False)"

definition live_overlays :: "display \<Rightarrow> nat list" where
  "live_overlays s = filter (is_overlay s) (attached s)"

text \<open>What a live overlay shows: the geometry and the colour it was drawn with.\<close>

definition overlay_of :: "display \<Rightarrow> nat \<Rightarrow> geometry \<times> string" where
  "overlay_of s l = (case store s l of Some (GeoJSONObj g c) \<Rightarrow> (g, c) | _ \<Rightarrow> ([], []))"

subsection \<open>Markers\<close>

definition setMarker :: "real \<Rightarrow> real \<Rightarrow> string \<Rightarrow> nat option \<Rightarrow> display \<Rightarrow> nat \<times> display" where
  "setMarker la lo title existing s =
     (case existing of
        None \<Rightarrow>
          (let m = next_ref s
           in (m, s\<lparr>store := (store s)(m \<mapsto> MarkerObj (la, lo) title title),
                     next_ref := Suc m,
                     attached := attached s @ [m]\<rparr>))
      | Some m \<Rightarrow>
          (m, (case store s m of
                 Some (MarkerObj _ t _) \<Rightarrow> s\<lparr>store := (store s)(m \<mapsto> MarkerObj (la, lo) t title)\<rparr>
               | _ \<Rightarrow> s)))"

definition marker_points :: "display \<Rightarrow> nat option \<Rightarrow> (real \<times> real) list" where
  "marker_points s v = (case v of None \<Rightarrow> [] | Some m \<Rightarrow> layer_points s m)"

definition fitToMarkers :: "display \<Rightarrow> display" where
  "fitToMarkers s =
     (let pts = marker_points s (originMarker s) @ marker_points s (destMarker s)
      in case pts of
           [] \<Rightarrow> s
         | [p] \<Rightarrow> s\<lparr>viewport := SetView p 16\<rparr>
         | _ \<Rightarrow> s\<lparr>viewport := FitBounds pts 40\<rparr>)"

section \<open>Form submission\<close>

text \<open>
  The handler is an \<^verbatim>\<open>async\<close> function: it runs to each \<^verbatim>\<open>await\<close>, and goes on with the
  answer. One run, taken alone, is a function of the form's values, of the answers of
  the two services and of the display state it starts from. It returns the display state
  it leaves and a log of what it asked and told, each entry with the display state at
  that moment.
\<close>

datatype form_field = Origin | Destination

datatype 'a response =
    HttpError
  | Rejected string
  | Ok 'a

record place =
  display_name :: string
  place_lat :: real
  place_lon :: real

record resolved =
  r_lat :: real
  r_lon :: real
  display :: string

datatype event =
    Alert string
  | ConsoleError string
  | GeocodeCall form_field string
  | RouteCall latlon latlon string
  | Dispatch string

type_synonym log = "(event \<times> display) list"

text \<open>The \<^verbatim>\<open>catch\<close> block: the error is logged and its message shown.\<close>

definition caught :: "string \<Rightarrow> display \<Rightarrow> log \<Rightarrow> display \<times> log" where
  "caught msg s lg =
     (s, lg @ [(ConsoleError msg, s),
               (Alert (if msg = [] then ''Search/route failed.'' else msg), s)])"

definition field_name :: "form_field \<Rightarrow> string" where
  "field_name f = (case f of Origin \<Rightarrow> ''Origin'' | Destination \<Rightarrow> ''Destination'')"

text \<open>
  One field: the parsed pair with its raw label, or the first match of the geocoder.
  \<^term>\<open>Inl\<close> is the end of the run (an error caught, or nothing found).
\<close>

definition resolve ::
    "form_field \<Rightarrow> string \<Rightarrow> latlon option \<Rightarrow> (form_field \<Rightarrow> string \<Rightarrow> place list response) \<Rightarrow>
     display \<Rightarrow> log \<Rightarrow> (display \<times> log) + (resolved \<times> log)" where
  "resolve f q parsed geocode s lg =
     (case parsed of
        Some p \<Rightarrow>
          Inr (\<lparr>r_lat = lat p, r_lon = lon p,
                display = toFixed (lat p) 6 @ '', '' @ toFixed (lon p) 6 @ '' (raw)''\<rparr>, lg)
      | None \<Rightarrow>
          (let lg1 = lg @ [(GeocodeCall f q, s)]
           in case geocode f q of
                HttpError \<Rightarrow> Inl (caught ''Geocode failed'' s lg1)
              | Rejected msg \<Rightarrow> Inl (caught msg s lg1)
              | Ok [] \<Rightarrow> Inl (s, lg1 @ [(Alert (field_name f @ '' not found.''), s)])
              | Ok (h # _) \<Rightarrow>
                  Inr (\<lparr>r_lat = place_lat h, r_lon = place_lon h, display = display_name h\<rparr>, lg1)))"

text \<open>Step 3 of the handler: both markers, then the viewport.\<close>

definition placeMarkers :: "resolved \<Rightarrow> resolved \<Rightarrow> display \<Rightarrow> display" where
  "placeMarkers o' d s =
     (let (om, s1) = setMarker (r_lat o') (r_lon o') (''Origin: '' @ display o') (originMarker s) s;
          s2 = s1\<lparr>originMarker := Some om\<rparr>;
          (dm, s3) = setMarker (r_lat d) (r_lon d) (''Destination: '' @ display d) (destMarker s2) s2;
          s4 = s3\<lparr>destMarker := Some dm\<rparr>
      in fitToMarkers s4)"

definition submit ::
    "string \<Rightarrow> string \<Rightarrow> string option \<Rightarrow>
     (form_field \<Rightarrow> string \<Rightarrow> place list response) \<Rightarrow>
     (latlon \<Rightarrow> latlon \<Rightarrow> string \<Rightarrow> route_result response) \<Rightarrow>
     display \<Rightarrow> display \<times> log" where
  "submit originValue destValue modeSel geocode fetchRoutesMulti s =
     (let originQ = trim originValue;
          destQ = trim destValue;
          mode = (case modeSel of None \<Rightarrow> ''walk'' | Some v \<Rightarrow> v)
      in if originQ = [] \<or> destQ = [] then
           (s, [(Alert ''Please enter both origin and destination.'', s)])
         else
           (let o0 = tryParseLatLon originQ;
                d0 = tryParseLatLon destQ
            in case resolve Origin originQ o0 geocode s [] of
                 Inl r \<Rightarrow> r
               | Inr (o', lg1) \<Rightarrow>
                   (case resolve Destination destQ d0 geocode s lg1 of
                      Inl r \<Rightarrow> r
                    | Inr (d, lg2) \<Rightarrow>
                        (let s1 = placeMarkers o' d s;
                             orig = \<lparr>lat = r_lat o', lon = r_lon o'\<rparr>;
                             dest = \<lparr>lat = r_lat d, lon = r_lon d\<rparr>;
                             lg3 = lg2 @ [(RouteCall orig dest mode, s1)]
                         in case fetchRoutesMulti orig dest mode of
                              HttpError \<Rightarrow> caught ''Route computation failed'' s1 lg3
                            | Rejected msg \<Rightarrow> caught msg s1 lg3
                            | Ok data \<Rightarrow>
                                (let s2 = (drawMultiRoutes data s1)\<lparr>sheet_shown := True\<rparr>
                                 in (s2, lg3 @ [(Dispatch ''routes:updated'', s2)]))))))"

text \<open>What a run asked and told, in order, without the states.\<close>

definition events :: "display \<times> log \<Rightarrow> event list" where
  "events r = map fst (snd r)"

section \<open>Well-formed display states\<close>

text \<open>
  What holds of every display state the script can reach: references are below the
  allocation counter, the two marker variables refer to two different markers on the map,
  and the GeoJSON layers on the map are the ones listed in \<^verbatim>\<open>routeLayers\<close>.
\<close>

definition is_marker :: "display \<Rightarrow> nat \<Rightarrow> bool" where
  "is_marker s m = (case store s m of Some (MarkerObj _ _ _) \<Rightarrow> True | _ \<Rightarrow> False)"

definition marker_ok :: "display \<Rightarrow> nat option \<Rightarrow> bool" where
  "marker_ok s v = (case v of None \<Rightarrow> True | Some m \<Rightarrow> m < next_ref s \<and> is_marker s m \<and> m \<in> set (attached s))"

definition wf_display :: "display \<Rightarrow> bool" where
  "wf_display s \<longleftrightarrow>
     list_all (\<lambda>l. l < next_ref s) (attached s) \<and>
     list_all (\<lambda>l. l < next_ref s) (routeLayers s) \<and>
     set (live_overlays s) = set (routeLayers s) \<and>
     marker_ok s (originMarker s) \<and> marker_ok s (destMarker s) \<and>
     (originMarker s = None \<or> originMarker s \<noteq> destMarker s)"

text \<open>Where a marker variable points: the position of its marker, if it is on the map.\<close>

definition marker_at :: "display \<Rightarrow> nat option \<Rightarrow> (real \<times> real) option" where
  "marker_at s v =
     (case v of
        None \<Rightarrow> None
      | Some m \<Rightarrow>
          (case store s m of
             Some (MarkerObj ll _ _) \<Rightarrow> if m \<in> set (attached s) then Some ll else None
           | _ \<Rightarrow> None))"

text \<open>
  The store after the loop of \<^verbatim>\<open>drawMultiRoutes\<close> has drawn the routes \<open>rs\<close> from the
  state \<open>s\<close>: the new layers take the next references in order.
\<close>

definition drawn_store :: "display \<Rightarrow> route list \<Rightarrow> nat \<Rightarrow> obj option" where
  "drawn_store s rs l =
     (if next_ref s \<le> l \<and> l < next_ref s + length rs
      then Some (GeoJSONObj (geojson (rs ! (l - next_ref s))) (color (rs ! (l - next_ref s))))
      else store s l)"

section \<open>Decimal numerals, as the specification words them\<close>

text \<open>
  The specification speaks of a field that parses as a decimal real: an optional sign, a
  run of digits, and optionally a point with a further run of digits. Such a numeral is
  given here by its parts, with the text it is written as and the real number it denotes.
\<close>

datatype decimal = Decimal string string "string option"

fun decimal_wf :: "decimal \<Rightarrow> bool" where
  "decimal_wf (Decimal sg ip fp) \<longleftrightarrow>
     (sg = [] \<or> sg = ''+'' \<or> sg = ''-'') \<and> ip \<noteq> [] \<and> list_all is_digit ip \<and>
     (case fp of None \<Rightarrow> True | Some fd \<Rightarrow> fd \<noteq> [] \<and> list_all is_digit fd)"

fun decimal_text :: "decimal \<Rightarrow> string" where
  "decimal_text (Decimal sg ip fp) = sg @ ip @ (case fp of None \<Rightarrow> [] | Some fd \<Rightarrow> ''.'' @ fd)"

fun decimal_value :: "decimal \<Rightarrow> real" where
  "decimal_value (Decimal sg ip fp) =
     (if sg = ''-'' then - 1 else 1) *
     (real (digits_val ip) + (case fp of None \<Rightarrow> 0 | Some fd \<Rightarrow> real (digits_val fd) / 10 ^ length fd))"

section \<open>Sample data\<close>

definition sample_route :: "real \<Rightarrow> string option \<Rightarrow> real option \<Rightarrow> real option \<Rightarrow> route" where
  "sample_route b nm len risk =
     \<lparr>beta = b, name = nm, color = ''#16a34a'', geojson = [(3864 / 100, - (9029 / 100)), (386 / 10, - (902 / 10))],
      stats = \<lparr>length_m = len, mean_risk = risk, detour_m_vs_beta0 = 0, risk_delta_vs_beta0 = 0\<rparr>\<rparr>"

definition sample_result :: "route list \<Rightarrow> route_result" where
  "sample_result rs =
     \<lparr>mode = Some ''walk'', snapped_origin = \<lparr>lat = 3864 / 100, lon = - (9029 / 100)\<rparr>,
      snapped_destination = \<lparr>lat = 386 / 10, lon = - (902 / 10)\<rparr>, routes = rs\<rparr>"

section \<open>Properties of the scoring\<close>

lemma fold_max_ge: "(a::real) \<le> fold max xs a"
proof (induction xs arbitrary: a)
  case Nil
  show ?case by simp
next
  case (Cons y ys)
  have "a \<le> max y a" by simp
  also have "\<dots> \<le> fold max ys (max y a)" by (rule Cons.IH)
  finally show ?case by simp
qed

lemma fold_max_all_le: "\<forall>x\<in>set xs. x \<le> (a::real) \<Longrightarrow> fold max xs a = a"
  by (induction xs) (auto simp: max_def)

lemma maxRisk_pos: "0 < maxRisk rs"
proof -
  have "(0::real) < 1 / 10 ^ 9" by simp
  also have "\<dots> \<le> maxRisk rs" unfolding maxRisk_def by (rule fold_max_ge)
  finally show ?thesis .
qed

lemma js_round_mono: "x \<le> y \<Longrightarrow> js_round x \<le> js_round y"
  unfolding js_round_def by (intro floor_mono) simp

lemma js_round_nearest: "\<bar>real_of_int (js_round x) - x\<bar> \<le> 1 / 2"
  unfolding js_round_def by linarith

lemma safetyScore1_antitone:
  assumes "0 < mx" and "or_zero (mean_risk (stats b)) \<le> or_zero (mean_risk (stats a))"
  shows "safetyScore1 mx a \<le> safetyScore1 mx b"
proof -
  have "or_zero (mean_risk (stats b)) / mx \<le> or_zero (mean_risk (stats a)) / mx"
    using assms by (simp add: divide_right_mono)
  hence "(1 - min 1 (or_zero (mean_risk (stats a)) / mx)) * 100
           \<le> (1 - min 1 (or_zero (mean_risk (stats b)) / mx)) * 100"
    by (simp add: min_def)
  from js_round_mono [OF this] show ?thesis
    unfolding safetyScore1_def Let_def by (simp add: min_def max_def)
qed

lemma safetyScore1_zero: "or_zero (mean_risk (stats r)) = 0 \<Longrightarrow> safetyScore1 mx r = 100"
  by (simp add: safetyScore1_def js_round_def)

lemma safetyScore1_range: "0 \<le> safetyScore1 mx r \<and> safetyScore1 mx r \<le> 100"
  by (simp add: safetyScore1_def Let_def)

text \<open>
  Claim C2. Within one route set the safety score is antitone in the mean risk the code
  reads (\<^verbatim>\<open>mean_risk || 0\<close>): a route whose risk is at least another's scores at most
  the other's score. A route of risk 0 scores exactly 100, every score lies between 0 and
  100, and rs of risks 0, 5 and 10 score 100, 50 and 0.
\<close>

theorem safetyScores_antitone:
  "(\<forall>i<length rs. \<forall>j<length rs.
      or_zero (mean_risk (stats (rs ! j))) \<le> or_zero (mean_risk (stats (rs ! i)))
        \<longrightarrow> safetyScores rs ! i \<le> safetyScores rs ! j)
   \<and> (\<forall>i<length rs. or_zero (mean_risk (stats (rs ! i))) = 0
        \<longrightarrow> safetyScores rs ! i = 100)
   \<and> (\<forall>s\<in>set (safetyScores rs). 0 \<le> s \<and> s \<le> 100)
   \<and> (map (\<lambda>r. mean_risk (stats r)) rs = [Some 0, Some 5, Some 10]
        \<longrightarrow> safetyScores rs = [100, 50, 0])"
proof (intro conjI allI impI ballI)
  fix i j
  assume "i < length rs" "j < length rs"
    "or_zero (mean_risk (stats (rs ! j))) \<le> or_zero (mean_risk (stats (rs ! i)))"
  thus "safetyScores rs ! i \<le> safetyScores rs ! j"
    by (simp add: safetyScores_def safetyScore1_antitone maxRisk_pos)
next
  fix i
  assume "i < length rs" "or_zero (mean_risk (stats (rs ! i))) = 0"
  thus "safetyScores rs ! i = 100"
    by (simp add: safetyScores_def safetyScore1_zero)
next
  fix s
  assume "s \<in> set (safetyScores rs)"
  then obtain r where "s = safetyScore1 (maxRisk rs) r"
    by (auto simp: safetyScores_def)
  thus "0 \<le> s" "s \<le> 100" using safetyScore1_range by simp_all
next
  assume a: "map (\<lambda>r. mean_risk (stats r)) rs = [Some 0, Some 5, Some 10]"
  then obtain a b c where r: "rs = [a, b, c]" by auto
  with a have m: "mean_risk (stats a) = Some 0" "mean_risk (stats b) = Some 5"
      "mean_risk (stats c) = Some 10"
    by simp_all
  show "safetyScores rs = [100, 50, 0]"
    by (simp add: r m safetyScores_def safetyScore1_def maxRisk_def or_zero_def js_round_def)
qed

theorem safetyScores_antitone_witness:
  "safetyScores [sample_route 0 None (Some 900) (Some 0), sample_route (1 / 2) None (Some 1000) (Some 5),
                 sample_route 1 None (Some 1200) (Some 10)] = [100, 50, 0]"
  using safetyScores_antitone
    [of "[sample_route 0 None (Some 900) (Some 0), sample_route (1 / 2) None (Some 1000) (Some 5),
          sample_route 1 None (Some 1200) (Some 10)]"]
  by (simp add: sample_route_def)

text \<open>
  Claim C3. When every route of the set has mean risk 0, the divisor of the
  normalisation is the floor \<open>1e-9\<close>, which is not zero, and every score is 100.
\<close>

theorem safetyScores_all_zero_risk:
  assumes "\<forall>r\<in>set rs. or_zero (mean_risk (stats r)) = 0"
  shows "maxRisk rs = 1 / 10 ^ 9 \<and> maxRisk rs \<noteq> 0
         \<and> safetyScores rs = replicate (length rs) 100"
proof -
  have "maxRisk rs = 1 / 10 ^ 9"
    unfolding maxRisk_def using assms by (intro fold_max_all_le) auto
  moreover have "safetyScores rs = replicate (length rs) 100"
    unfolding safetyScores_def using assms
    by (intro nth_equalityI) (simp_all add: safetyScore1_zero)
  ultimately show ?thesis by simp
qed

theorem safetyScores_all_zero_risk_witness:
  "safetyScores [sample_route 0 None (Some 900) (Some 0), sample_route 1 None (Some 1200) None]
     = [100, 100]
   \<and> maxRisk [sample_route 0 None (Some 900) (Some 0), sample_route 1 None (Some 1200) None]
     = 1 / 10 ^ 9"
  using safetyScores_all_zero_risk
    [of "[sample_route 0 None (Some 900) (Some 0), sample_route 1 None (Some 1200) None]"]
  by (simp add: sample_route_def or_zero_def)

text \<open>
  Claim C4. For an integer score from 0 to 100 the badge is Safe exactly from 80 up,
  Moderate exactly from 60 to 79, and Caution exactly below 60; so 80 is Safe, 79 and 60
  are Moderate, and 59 is Caution.
\<close>

theorem safetyBadge_tiers:
  "0 \<le> s \<and> s \<le> 100 \<Longrightarrow>
     (text' (safetyBadge s) = ''Safe'' \<longleftrightarrow> s \<ge> 80) \<and>
     (text' (safetyBadge s) = ''Moderate'' \<longleftrightarrow> 60 \<le> s \<and> s < 80) \<and>
     (text' (safetyBadge s) = ''Caution'' \<longleftrightarrow> s < 60)"
  by (simp add: safetyBadge_def)

theorem safetyBadge_tiers_witness:
  "text' (safetyBadge 80) = ''Safe'' \<and> text' (safetyBadge 79) = ''Moderate'' \<and>
   text' (safetyBadge 60) = ''Moderate'' \<and> text' (safetyBadge 59) = ''Caution''"
  using safetyBadge_tiers [of 80] safetyBadge_tiers [of 79] safetyBadge_tiers [of 60]
    safetyBadge_tiers [of 59]
  by simp

section \<open>Properties of the route cards\<close>

lemma render_cards:
  "renderRouteChoicesTemplate rs m (Some old) = Some cards \<Longrightarrow> i < length rs \<Longrightarrow>
   length cards = length rs \<and>
   cards ! i =
     route_card (js_or (MODE_SPEEDS (case m of None \<Rightarrow> ''walk'' | Some v \<Rightarrow> v)) (MODE_SPEEDS ''walk''))
       (rs ! i) (safetyScores rs ! i)"
  by (auto simp: renderRouteChoicesTemplate_def Let_def safetyScores_def)

lemma speeds_never_zero:
  "js_or (MODE_SPEEDS m) (MODE_SPEEDS ''walk'') \<noteq> Number 0"
  by (simp add: js_or_def MODE_SPEEDS_def)

text \<open>
  Claim C6. For a route of non-negative length and a mode among walk, bike and drive, the
  time shown on the card is the length divided by the speed of the mode (1.3, 4.5 or
  11 metres a second), in minutes, rounded to the nearest whole minute by
  \<^verbatim>\<open>Math.round\<close> and followed by the letter m.
\<close>

theorem eta_supported_modes:
  assumes "(m, speed) \<in> {(''walk'', 13 / 10), (''bike'', 45 / 10), (''drive'', 11)}"
    and "i < length rs"
    and "length_m (stats (rs ! i)) = Some len" and "0 \<le> len"
    and "renderRouteChoicesTemplate rs (Some m) (Some old) = Some cards"
  shows "card_eta (cards ! i) = show_int (js_round ((len / speed) / 60)) @ ''m''
         \<and> \<bar>real_of_int (js_round ((len / speed) / 60)) - (len / speed) / 60\<bar> \<le> 1 / 2"
proof -
  have sp: "js_or (MODE_SPEEDS m) (MODE_SPEEDS ''walk'') = Number speed"
    using assms(1) by (auto simp: js_or_def MODE_SPEEDS_def)
  have c: "cards ! i = route_card (Number speed) (rs ! i) (safetyScores rs ! i)"
    using render_cards [OF assms(5) assms(2)] sp by simp
  have "card_eta (cards ! i) = show_int (js_round ((len / speed) / 60)) @ ''m''"
    by (simp add: c route_card_def Let_def js_div_def fmtMinutes_def or_zero_def assms(3))
  thus ?thesis using js_round_nearest by blast
qed

theorem eta_supported_modes_witness:
  "map_option (map card_eta)
     (renderRouteChoicesTemplate [sample_route 0 None (Some 1000) (Some 0)] (Some ''bike'') (Some []))
   = Some [''4m'']"
proof -
  obtain cards where r: "renderRouteChoicesTemplate [sample_route 0 None (Some 1000) (Some 0)]
      (Some ''bike'') (Some []) = Some cards"
    by (simp add: renderRouteChoicesTemplate_def)
  have l: "length cards = 1" using render_cards [OF r, of 0] by simp
  have "card_eta (cards ! 0) = show_int (js_round ((1000 / (45 / 10)) / 60)) @ ''m''"
    using eta_supported_modes [of "''bike''" "45 / 10" 0
        "[sample_route 0 None (Some 1000) (Some 0)]" 1000 "[]" cards] r
    by (simp add: sample_route_def)
  moreover have "show_int (js_round ((1000 / (45 / 10)) / 60)) @ ''m'' = ''4m''"
    by code_simp
  moreover have "cards = [cards ! 0]" using l by (cases cards) auto
  ultimately show ?thesis using r by (metis list.simps(8,9) option.simps(9))
qed

text \<open>
  Claim C7, as amended. The title of a card is the name the server gave the route when
  there is one that is not empty; otherwise it follows \<open>beta\<close>: Fastest Route for 0,
  Safest Route from 1 up, Balanced Route for the rest. The description follows \<open>beta\<close> by
  the same split and begins "Direct route optimized for", "Maximum safety route for" or
  "Good compromise between speed and safety for".
\<close>

theorem title_subtitle_by_beta:
  assumes "i < length rs"
    and "renderRouteChoicesTemplate rs m (Some old) = Some cards"
  shows "(name (rs ! i) = None \<or> name (rs ! i) = Some [] \<longrightarrow>
            card_title (cards ! i) =
              (if beta (rs ! i) = 0 then ''Fastest Route''
               else if beta (rs ! i) \<ge> 1 then ''Safest Route'' else ''Balanced Route''))
         \<and> (\<forall>n. name (rs ! i) = Some n \<and> n \<noteq> [] \<longrightarrow> card_title (cards ! i) = n)
         \<and> prefix
             (if beta (rs ! i) = 0 then ''Direct route optimized for ''
              else if beta (rs ! i) \<ge> 1 then ''Maximum safety route for ''
              else ''Good compromise between speed and safety for '')
             (card_subtitle (cards ! i))"
  using render_cards [OF assms(2) assms(1)]
  by (auto simp: route_card_def Let_def str_or_def nameForBeta_def)

theorem title_subtitle_by_beta_witness:
  "map_option (map (\<lambda>c. (card_title c, card_subtitle c)))
     (renderRouteChoicesTemplate
        [sample_route 0 None (Some 900) (Some 0), sample_route 2 (Some ''Quiet streets'') (Some 1200) (Some 1)]
        (Some ''walk'') (Some []))
   = Some [(''Fastest Route'', ''Direct route optimized for walk''),
           (''Quiet streets'', ''Maximum safety route for walk'')]
   \<and> prefix ''Direct route optimized for '' ''Direct route optimized for walk''"
proof -
  let ?rs = "[sample_route 0 None (Some 900) (Some 0),
              sample_route 2 (Some ''Quiet streets'') (Some 1200) (Some 1)]"
  obtain cards where r: "renderRouteChoicesTemplate ?rs (Some ''walk'') (Some []) = Some cards"
    by (simp add: renderRouteChoicesTemplate_def)
  have "prefix ''Direct route optimized for '' (card_subtitle (cards ! 0))"
    using title_subtitle_by_beta [of 0 ?rs "Some ''walk''" "[]" cards] r
    by (simp add: sample_route_def)
  moreover have "map (\<lambda>c. (card_title c, card_subtitle c)) cards =
      [(''Fastest Route'', ''Direct route optimized for walk''),
       (''Quiet streets'', ''Maximum safety route for walk'')]"
    using r
    by (auto simp: renderRouteChoicesTemplate_def Let_def safetyScores_def route_card_def
        sample_route_def str_or_def nameForBeta_def)
  ultimately show ?thesis using r by simp
qed

text \<open>
  Claim C7 as the specification states it fails: a route of \<open>beta = 0\<close> that the server
  named is shown under that name, not as Fastest Route, and in mode bike its description
  still ends in walk.
\<close>

theorem title_subtitle_counterexample:
  "map_option (map card_title)
     (renderRouteChoicesTemplate [sample_route 0 (Some ''Scenic'') (Some 900) (Some 0)]
        (Some ''bike'') (Some []))
   = Some [''Scenic'']
   \<and> ''Scenic'' \<noteq> ''Fastest Route''
   \<and> map_option (map card_subtitle)
     (renderRouteChoicesTemplate [sample_route 0 (Some ''Scenic'') (Some 900) (Some 0)]
        (Some ''bike'') (Some []))
   = Some [''Direct route optimized for walk'']
   \<and> ''Direct route optimized for walk'' \<noteq> ''Direct route optimized for bike''"
  by (simp add: renderRouteChoicesTemplate_def Let_def safetyScores_def route_card_def
      sample_route_def str_or_def)

text \<open>
  Claim C10 at a mode that names a property of \<^verbatim>\<open>Object.prototype\<close>: the lookup
  \<^verbatim>\<open>MODE_SPEEDS[mode]\<close> finds the inherited function, which is truthy, so the walking
  speed is not substituted; the quotient is \<^verbatim>\<open>NaN\<close> and the card shows \<^verbatim>\<open>NaNm\<close>,
  where the walking speed would give 13 minutes for 1000 metres.
\<close>

theorem eta_inherited_mode_key:
  "map_option (map card_eta)
     (renderRouteChoicesTemplate [sample_route 0 None (Some 1000) (Some 0)]
        (Some ''constructor'') (Some []))
   = Some [''NaNm'']
   \<and> show_int (js_round ((1000 / (13 / 10)) / 60)) @ ''m'' = ''13m''"
proof
  show "map_option (map card_eta)
     (renderRouteChoicesTemplate [sample_route 0 None (Some 1000) (Some 0)]
        (Some ''constructor'') (Some [])) = Some [''NaNm'']"
    by (simp add: renderRouteChoicesTemplate_def Let_def safetyScores_def route_card_def
        sample_route_def MODE_SPEEDS_def object_prototype_keys_def js_or_def js_div_def
        fmtMinutes_def)
  show "show_int (js_round ((1000 / (13 / 10)) / 60)) @ ''m'' = ''13m''"
    by code_simp
qed

text \<open>
  For every other mode that is not walk, bike or drive the walking speed is used, and a
  length that is missing or falsy counts as 0 metres.
\<close>

lemma eta_unknown_mode:
  assumes "m \<notin> {''walk'', ''bike'', ''drive''}" and "m \<notin> set object_prototype_keys"
    and "i < length rs"
    and "renderRouteChoicesTemplate rs (Some m) (Some old) = Some cards"
  shows "card_eta (cards ! i)
         = show_int (js_round ((or_zero (length_m (stats (rs ! i))) / (13 / 10)) / 60)) @ ''m''"
proof -
  have sp: "js_or (MODE_SPEEDS m) (MODE_SPEEDS ''walk'') = Number (13 / 10)"
    using assms(1,2) by (simp add: js_or_def MODE_SPEEDS_def)
  have c: "cards ! i = route_card (Number (13 / 10)) (rs ! i) (safetyScores rs ! i)"
    using render_cards [OF assms(4) assms(3)] sp by simp
  show ?thesis
    by (simp add: c route_card_def Let_def js_div_def fmtMinutes_def)
qed

lemma length_missing_is_zero: "or_zero None = 0 \<and> or_zero (Some 0) = 0"
  by (simp add: or_zero_def)

section \<open>Properties of the delta texts\<close>

lemma toFixed_negative: "x < 0 \<Longrightarrow> toFixed x 0 = ''-'' @ show_nat (nat \<lfloor>- x + 1 / 2\<rfloor>)"
  by (simp add: toFixed_def Let_def)

text \<open>
  Claim C9. The distance delta is reported as "same distance as \<beta>=0", and the risk
  delta as "same risk as \<beta>=0", exactly when its absolute value is below 1. Otherwise the
  text is the delta rounded to a whole number with its sign in front and the unit behind;
  0.4 gives the same-distance text, 120 gives "+120 m" and -120 gives "-120 m".
\<close>

theorem delta_texts:
  "(detourTxt d = ''same distance as '' @ beta_sym @ ''=0'' \<longleftrightarrow> \<bar>d\<bar> < 1)
   \<and> (riskTxt d = ''same risk as '' @ beta_sym @ ''=0'' \<longleftrightarrow> \<bar>d\<bar> < 1)
   \<and> (\<not> \<bar>d\<bar> < 1 \<longrightarrow>
        detourTxt d = (if d > 0 then ''+'' else []) @ toFixed d 0 @ '' m'')
   \<and> (\<not> \<bar>d\<bar> < 1 \<longrightarrow>
        riskTxt d = (if d < 0 then minus_sym else ''+'') @ toFixed \<bar>d\<bar> 0 @ '' m'' @ middot_sym @ ''risk'')
   \<and> detourTxt (4 / 10) = ''same distance as '' @ beta_sym @ ''=0''
   \<and> detourTxt 120 = ''+120 m''
   \<and> detourTxt (- 120) = ''-120 m''"
proof (intro conjI)
  show "detourTxt d = ''same distance as '' @ beta_sym @ ''=0'' \<longleftrightarrow> \<bar>d\<bar> < 1"
    by (auto simp: detourTxt_def toFixed_negative)
  show "riskTxt d = ''same risk as '' @ beta_sym @ ''=0'' \<longleftrightarrow> \<bar>d\<bar> < 1"
    by (auto simp: riskTxt_def minus_sym_def)
  show "\<not> \<bar>d\<bar> < 1 \<longrightarrow> detourTxt d = (if d > 0 then ''+'' else []) @ toFixed d 0 @ '' m''"
    by (simp add: detourTxt_def)
  show "\<not> \<bar>d\<bar> < 1 \<longrightarrow>
        riskTxt d = (if d < 0 then minus_sym else ''+'') @ toFixed \<bar>d\<bar> 0 @ '' m'' @ middot_sym @ ''risk''"
    by (simp add: riskTxt_def)
  show "detourTxt (4 / 10) = ''same distance as '' @ beta_sym @ ''=0''"
    by (simp add: detourTxt_def)
  show "detourTxt 120 = ''+120 m''" by code_simp
  show "detourTxt (- 120) = ''-120 m''" by code_simp
qed

theorem delta_texts_witness:
  "detourTxt (3 / 2) = ''+2 m'' \<and> riskTxt (- 120) = minus_sym @ ''120 m'' @ middot_sym @ ''risk''"
proof -
  have "detourTxt (3 / 2) = ''+'' @ toFixed (3 / 2) 0 @ '' m''"
    using delta_texts [of "3 / 2"] by simp
  moreover have "riskTxt (- 120) = minus_sym @ toFixed 120 0 @ '' m'' @ middot_sym @ ''risk''"
    using delta_texts [of "- 120"] by simp
  moreover have "toFixed (3 / 2) 0 = ''2''" by code_simp
  moreover have "toFixed 120 0 = ''120''" by code_simp
  ultimately show ?thesis by simp
qed

section \<open>Properties of the coordinate resolver\<close>

lemma digit_not_sep: "is_digit c \<Longrightarrow> \<not> is_sep c \<and> \<not> is_space c \<and> c \<noteq> CHR ''+'' \<and> c \<noteq> CHR ''-'' \<and> c \<noteq> CHR ''.''"
  by (auto simp: is_digit_def is_sep_def is_space_def)

lemma digits_then_rest:
  assumes "list_all is_digit ip" and "r = [] \<or> \<not> is_digit (hd r)"
  shows "takeWhile is_digit (ip @ r) = ip" and "dropWhile is_digit (ip @ r) = r"
  using assms by (cases r; auto simp: list_all_iff takeWhile_tail dropWhile_append3)+

lemma digits_alone:
  assumes "list_all is_digit ip"
  shows "takeWhile is_digit ip = ip" and "dropWhile is_digit ip = []"
  using assms by (auto simp: list_all_iff)

lemma strip_sign_decimal:
  assumes "sg = [] \<or> sg = ''+'' \<or> sg = ''-''" and "ip \<noteq> []" and "list_all is_digit ip"
  shows "strip_sign (sg @ ip @ r) = ip @ r"
proof -
  obtain c cs where ip: "ip = c # cs" using assms(2) by (cases ip) auto
  hence "is_digit c" using assms(3) by simp
  hence "c \<noteq> CHR ''+'' \<and> c \<noteq> CHR ''-''" using digit_not_sep by blast
  thus ?thesis using assms(1) by (auto simp: strip_sign_def ip)
qed


lemma parseFloat_decimal: "decimal_wf a \<Longrightarrow> parseFloat (decimal_text a) = Some (decimal_value a)"
proof (cases a)
  case (Decimal sg ip fp)
  assume wf: "decimal_wf a"
  from wf Decimal obtain c cs where ip: "ip = c # cs" and c: "is_digit c"
    by (cases ip) auto
  have sgc: "sg = [] \<or> sg = ''+'' \<or> sg = ''-''" using wf Decimal by simp
  have ns: "\<not> is_space c" using c digit_not_sep by blast
  have cm: "c \<noteq> CHR ''-''" using c digit_not_sep by blast
  have dw: "dropWhile is_space (decimal_text a) = decimal_text a"
    using sgc ns by (auto simp: Decimal ip is_space_def)
  have neg: "(case decimal_text a of [] \<Rightarrow> False | x # _ \<Rightarrow> x = CHR ''-'') = (sg = ''-'')"
    using sgc cm by (auto simp: Decimal ip)
  show ?thesis
  proof (cases fp)
    case None
    have st: "strip_sign (decimal_text a) = ip"
      using strip_sign_decimal [of sg ip "[]"] wf Decimal None by simp
    have dg: "list_all is_digit ip" using wf Decimal by simp
    show ?thesis
      unfolding parseFloat_def Let_def dw neg st
      using dg ip by (simp add: digits_alone Decimal None digits_val_def)
  next
    case (Some fd)
    have st: "strip_sign (decimal_text a) = ip @ ''.'' @ fd"
      using strip_sign_decimal [of sg ip "''.'' @ fd"] wf Decimal Some by simp
    have dg: "list_all is_digit ip" "list_all is_digit fd" "fd \<noteq> []"
      using wf Decimal Some by simp_all
    have nd: "\<not> is_digit (hd (''.'' @ fd))" by (simp add: is_digit_def)
    have t: "takeWhile is_digit (ip @ ''.'' @ fd) = ip" "dropWhile is_digit (ip @ ''.'' @ fd) = ''.'' @ fd"
      using digits_then_rest [of ip "''.'' @ fd"] dg nd by simp_all
    show ?thesis
      unfolding parseFloat_def Let_def dw neg st t
      using dg ip by (simp add: digits_alone Decimal Some)
  qed
qed





lemma match_latlon_sound:
  assumes "match_latlon s = Some (m1, m3)"
  shows "\<exists>sp. s = m1 @ sp @ m3 \<and> sp \<noteq> [] \<and> list_all is_sep sp \<and> is_number m1 \<and> is_number m3"
proof -
  let ?rest = "dropWhile (\<lambda>c. \<not> is_sep c) s"
  have m: "m1 = takeWhile (\<lambda>c. \<not> is_sep c) s" "m3 = dropWhile is_sep ?rest"
    and c: "is_number m1" "takeWhile is_sep ?rest \<noteq> []" "is_number m3"
    using assms by (auto simp: match_latlon_def Let_def split: if_splits)
  have "s = m1 @ ?rest" by (simp add: m)
  also have "?rest = takeWhile is_sep ?rest @ m3" by (simp add: m)
  finally have "s = m1 @ takeWhile is_sep ?rest @ m3" .
  moreover have "list_all is_sep (takeWhile is_sep ?rest)"
    by (auto simp: list_all_iff dest: set_takeWhileD)
  ultimately show ?thesis using c by blast
qed

lemma is_number_decimal_form:
  assumes "is_number s"
  shows "\<exists>a. decimal_wf a \<and> decimal_text a = s"
proof -
  define sg where "sg = take (length s - length (strip_sign s)) s"
  define ip where "ip = takeWhile is_digit (strip_sign s)"
  define r where "r = dropWhile is_digit (strip_sign s)"
  have sgs: "s = sg @ strip_sign s" and sgc: "sg = [] \<or> sg = ''+'' \<or> sg = ''-''"
    by (auto simp: sg_def strip_sign_def split: list.splits)
  have ipr: "strip_sign s = ip @ r" by (simp add: ip_def r_def)
  have ipn: "ip \<noteq> []" and rc: "r = [] \<or> (\<exists>fd. r = ''.'' @ fd \<and> fd \<noteq> [] \<and> list_all is_digit fd)"
    using assms by (auto simp: is_number_def Let_def ip_def [symmetric] r_def [symmetric] split: list.splits)
  have ipd: "list_all is_digit ip" by (auto simp: ip_def list_all_iff dest: set_takeWhileD)
  from rc show ?thesis
  proof
    assume "r = []"
    hence "decimal_wf (Decimal sg ip None) \<and> decimal_text (Decimal sg ip None) = s"
      using sgs sgc ipr ipn ipd by simp
    thus ?thesis by blast
  next
    assume "\<exists>fd. r = ''.'' @ fd \<and> fd \<noteq> [] \<and> list_all is_digit fd"
    then obtain fd where "r = ''.'' @ fd" "fd \<noteq> []" "list_all is_digit fd" by blast
    hence "decimal_wf (Decimal sg ip (Some fd)) \<and> decimal_text (Decimal sg ip (Some fd)) = s"
      using sgs sgc ipr ipn ipd by simp
    thus ?thesis by blast
  qed
qed

text \<open>
  So the texts that \<^const>\<open>tryParseLatLon\<close> accepts are, up to white space around them,
  exactly the pairs of decimal numerals in range.
\<close>

lemma tryParseLatLon_only_decimal_pairs:
  assumes "tryParseLatLon text = Some p"
  shows "\<exists>a b sp. decimal_wf a \<and> decimal_wf b \<and> sp \<noteq> [] \<and> list_all is_sep sp
           \<and> trim text = decimal_text a @ sp @ decimal_text b
           \<and> p = \<lparr>lat = decimal_value a, lon = decimal_value b\<rparr>"
proof -
  from assms obtain m1 m3 la lo
    where m: "match_latlon (trim text) = Some (m1, m3)"
      and f: "parseFloat m1 = Some la" "parseFloat m3 = Some lo"
      and p: "p = \<lparr>lat = la, lon = lo\<rparr>"
    by (auto simp: tryParseLatLon_def split: if_splits option.splits)
  from match_latlon_sound [OF m] obtain sp
    where s: "trim text = m1 @ sp @ m3" "sp \<noteq> []" "list_all is_sep sp"
      and n: "is_number m1" "is_number m3"
    by blast
  from is_number_decimal_form [OF n(1)] obtain a where a: "decimal_wf a" "decimal_text a = m1"
    by blast
  from is_number_decimal_form [OF n(2)] obtain b where b: "decimal_wf b" "decimal_text b = m3"
    by blast
  have "la = decimal_value a" "lo = decimal_value b"
    using parseFloat_decimal [OF a(1)] parseFloat_decimal [OF b(1)] f a(2) b(2) by simp_all
  thus ?thesis using s a b p by blast
qed











section \<open>Properties of the overlay lifecycle\<close>

lemma fold_removeLayer:
  "fold removeLayer ls s = s\<lparr>attached := filter (\<lambda>x. x \<notin> set ls) (attached s)\<rparr>"
proof (induction ls arbitrary: s)
  case Nil
  show ?case by simp
next
  case (Cons l ls)
  have f: "filter (\<lambda>x. x \<notin> set ls) (removeAll l (attached s))
        = filter (\<lambda>x. x \<notin> set (l # ls)) (attached s)"
    by (induction "attached s") (auto simp: removeAll_filter_not_eq intro: filter_cong)
  have "fold removeLayer (l # ls) s = fold removeLayer ls (removeLayer l s)" by simp
  also have "\<dots> = (removeLayer l s)\<lparr>attached := filter (\<lambda>x. x \<notin> set ls) (attached (removeLayer l s))\<rparr>"
    by (rule Cons.IH)
  also have "\<dots> = s\<lparr>attached := filter (\<lambda>x. x \<notin> set (l # ls)) (attached s)\<rparr>"
    using f by (simp add: removeLayer_def)
  finally show ?case .
qed

lemma clearRoutes_eq:
  "clearRoutes s = s\<lparr>attached := filter (\<lambda>x. x \<notin> set (routeLayers s)) (attached s), routeLayers := []\<rparr>"
  by (simp add: clearRoutes_def fold_removeLayer)

lemma fold_drawRoute:
  "fold drawRoute rs (s, g) =
     (s\<lparr>store := drawn_store s rs,
        next_ref := next_ref s + length rs,
        attached := attached s @ [next_ref s..<next_ref s + length rs],
        routeLayers := routeLayers s @ [next_ref s..<next_ref s + length rs]\<rparr>,
      g @ [next_ref s..<next_ref s + length rs])"
proof (induction rs rule: rev_induct)
  case Nil
  have "drawn_store s [] = store s" by (rule ext) (auto simp: drawn_store_def)
  thus ?case by simp
next
  case (snoc r rs)
  have "(drawn_store s rs)(next_ref s + length rs \<mapsto> GeoJSONObj (geojson r) (color r))
        = drawn_store s (rs @ [r])"
    by (rule ext) (auto simp: drawn_store_def nth_append)
  hence "drawRoute r
          (s\<lparr>store := drawn_store s rs,
             next_ref := next_ref s + length rs,
             attached := attached s @ [next_ref s..<next_ref s + length rs],
             routeLayers := routeLayers s @ [next_ref s..<next_ref s + length rs]\<rparr>,
           g @ [next_ref s..<next_ref s + length rs])
        = (s\<lparr>store := drawn_store s (rs @ [r]),
             next_ref := next_ref s + length (rs @ [r]),
             attached := attached s @ [next_ref s..<next_ref s + length (rs @ [r])],
             routeLayers := routeLayers s @ [next_ref s..<next_ref s + length (rs @ [r])]\<rparr>,
           g @ [next_ref s..<next_ref s + length (rs @ [r])])"
    by (simp add: drawRoute_def Let_def)
  moreover have "fold drawRoute (rs @ [r]) (s, g) = drawRoute r (fold drawRoute rs (s, g))"
    by simp
  ultimately show ?case using snoc.IH by simp
qed

lemma drawMultiRoutes_fields:
  "attached (drawMultiRoutes d s) =
     filter (\<lambda>x. x \<notin> set (routeLayers s)) (attached s) @ [next_ref s..<next_ref s + length (routes d)]"
  "routeLayers (drawMultiRoutes d s) = [next_ref s..<next_ref s + length (routes d)]"
  "next_ref (drawMultiRoutes d s) = next_ref s + length (routes d)"
  "originMarker (drawMultiRoutes d s) = originMarker s"
  "destMarker (drawMultiRoutes d s) = destMarker s"
  by (simp_all add: drawMultiRoutes_def Let_def fold_drawRoute clearRoutes_eq)

lemma store_drawMultiRoutes: "store (drawMultiRoutes d s) l = drawn_store s (routes d) l"
  by (simp add: drawMultiRoutes_def Let_def fold_drawRoute clearRoutes_eq)
     (auto simp: drawn_store_def)

lemma wf_old_not_overlay:
  assumes "wf_display s" and "x \<in> set (attached s)" and "x \<notin> set (routeLayers s)"
  shows "\<not> is_overlay s x" and "x < next_ref s"
proof -
  have "set (live_overlays s) = set (routeLayers s)" using assms(1) by (simp add: wf_display_def)
  thus "\<not> is_overlay s x" using assms(2,3) by (auto simp: live_overlays_def)
  show "x < next_ref s" using assms(1,2) by (auto simp: wf_display_def list_all_iff)
qed

lemma live_overlays_drawn:
  assumes "wf_display s"
    and "attached t = filter (\<lambda>x. x \<notin> set (routeLayers s)) (attached s)
           @ [next_ref s..<next_ref s + length rs]"
    and "\<forall>l. store t l = drawn_store s rs l"
  shows "live_overlays t = [next_ref s..<next_ref s + length rs]"
proof -
  have old: "filter (\<lambda>x. x \<notin> set (routeLayers s) \<and> is_overlay t x) (attached s) = []"
  proof -
    have "\<not> is_overlay t x" if "x \<in> set (attached s)" "x \<notin> set (routeLayers s)" for x
    proof -
      from wf_old_not_overlay [OF assms(1) that]
      have "\<not> is_overlay s x" "x < next_ref s" .
      thus ?thesis using assms(3) by (simp add: is_overlay_def drawn_store_def)
    qed
    hence "\<forall>x\<in>set (attached s). x \<notin> set (routeLayers s) \<longrightarrow> \<not> is_overlay t x" by blast
    thus ?thesis by (auto simp: filter_empty_conv)
  qed
  have new: "filter (is_overlay t) [next_ref s..<next_ref s + length rs]
             = [next_ref s..<next_ref s + length rs]"
    using assms(3) by (auto simp: is_overlay_def drawn_store_def filter_id_conv)
  show ?thesis by (simp add: live_overlays_def assms(2) old new)
qed

lemma live_overlays_drawMultiRoutes:
  assumes "wf_display s"
  shows "live_overlays (drawMultiRoutes d s) = routeLayers (drawMultiRoutes d s)"
  using live_overlays_drawn [OF assms, of "drawMultiRoutes d s" "routes d"]
  by (simp add: drawMultiRoutes_fields store_drawMultiRoutes)

lemma wf_init_display: "wf_display (init_display b)"
  by (simp add: wf_display_def init_display_def live_overlays_def marker_ok_def)

lemma wf_drawMultiRoutes:
  assumes "wf_display s"
  shows "wf_display (drawMultiRoutes d s)"
proof -
  let ?t = "drawMultiRoutes d s"
  have lo: "set (live_overlays ?t) = set (routeLayers ?t)"
    using live_overlays_drawMultiRoutes [OF assms] by simp
  have a: "list_all (\<lambda>l. l < next_ref ?t) (attached ?t)"
    using assms by (auto simp: drawMultiRoutes_fields wf_display_def list_all_iff)
  have r: "list_all (\<lambda>l. l < next_ref ?t) (routeLayers ?t)"
    by (auto simp: drawMultiRoutes_fields list_all_iff)
  have mk: "marker_ok ?t v" if "marker_ok s v" for v
  proof (cases v)
    case None
    thus ?thesis by (simp add: marker_ok_def)
  next
    case (Some m)
    with that have m: "m < next_ref s" "is_marker s m" "m \<in> set (attached s)"
      by (simp_all add: marker_ok_def)
    have "\<not> is_overlay s m" using m(2) by (auto simp: is_marker_def is_overlay_def split: option.splits obj.splits)
    hence "m \<notin> set (live_overlays s)" by (simp add: live_overlays_def)
    hence "m \<notin> set (routeLayers s)" using assms by (simp add: wf_display_def)
    thus ?thesis using m Some
      by (simp add: marker_ok_def drawMultiRoutes_fields store_drawMultiRoutes is_marker_def drawn_store_def)
  qed
  show ?thesis
    unfolding wf_display_def
    using lo a r mk assms by (simp add: wf_display_def drawMultiRoutes_fields)
qed

lemma length_clearRoutes_trace: "length (clearRoutes_trace s) = Suc (length (routeLayers s))"
  by (simp add: clearRoutes_trace_def del: upt_Suc)

lemma clearRoutes_trace_live:
  assumes "t \<in> set (clearRoutes_trace s)"
  shows "set (live_overlays t) \<subseteq> set (live_overlays s)"
  using assms
  by (auto simp: clearRoutes_trace_def clearRoutes_eq fold_removeLayer live_overlays_def is_overlay_def)

lemma drawing_states_live:
  assumes "wf_display s"
    and "t \<in> set (clearRoutes s #
           map (\<lambda>k. fst (fold drawRoute (take k (routes d)) (clearRoutes s, [])))
             [1..<Suc (length (routes d))] @ [drawMultiRoutes d s])"
  shows "set (live_overlays t) \<subseteq> set (live_overlays (drawMultiRoutes d s))"
proof -
  have fin: "live_overlays (drawMultiRoutes d s) = [next_ref s..<next_ref s + length (routes d)]"
    using live_overlays_drawMultiRoutes [OF assms(1)] by (simp add: drawMultiRoutes_fields)
  have step: "set (live_overlays (fst (fold drawRoute (take k (routes d)) (clearRoutes s, []))))
              \<subseteq> set (live_overlays (drawMultiRoutes d s))" for k
  proof -
    have "live_overlays (fst (fold drawRoute (take k (routes d)) (clearRoutes s, [])))
          = [next_ref s..<next_ref s + length (take k (routes d))]"
      by (rule live_overlays_drawn [OF assms(1)])
         (simp_all add: fold_drawRoute clearRoutes_eq drawn_store_def)
    thus ?thesis using fin by auto
  qed
  have "clearRoutes s = fst (fold drawRoute (take 0 (routes d)) (clearRoutes s, []))"
    by simp
  hence "set (live_overlays (clearRoutes s)) \<subseteq> set (live_overlays (drawMultiRoutes d s))"
    using step [of 0] by simp
  thus ?thesis using assms(2) step by auto
qed

lemma last_drawMultiRoutes_trace: "last (drawMultiRoutes_trace d s) = drawMultiRoutes d s"
  by (simp add: drawMultiRoutes_trace_def)

lemma overlay_of_drawn:
  "map (overlay_of (drawMultiRoutes d s)) (routeLayers (drawMultiRoutes d s))
   = map (\<lambda>r. (geojson r, color r)) (routes d)"
  by (rule nth_equalityI)
     (simp_all add: drawMultiRoutes_fields store_drawMultiRoutes overlay_of_def drawn_store_def)

text \<open>
  Claim C1. Two calls of \<^verbatim>\<open>drawMultiRoutes\<close> in succession, from any well-formed display
  state: after the second, the route overlays on the map are exactly the layers drawn by
  the second call, one for each of its routes in order, with that route's geometry and
  colour, and no overlay of the first call is left on the map. Inside the second call
  every state up to the reset of the list shows overlays of the first call only, and
  every state from the reset on shows overlays of the second call only, so the two
  generations are never on the map together.
\<close>

theorem drawMultiRoutes_twice:
  assumes "wf_display s0"
  shows "let s1 = drawMultiRoutes d1 s0;
             s2 = drawMultiRoutes d2 s1;
             tr = drawMultiRoutes_trace d2 s1;
             c = length (routeLayers s1)
         in live_overlays s2 = routeLayers s2
            \<and> distinct (live_overlays s2)
            \<and> map (overlay_of s2) (live_overlays s2) = map (\<lambda>r. (geojson r, color r)) (routes d2)
            \<and> set (live_overlays s1) \<inter> set (attached s2) = {}
            \<and> last tr = s2
            \<and> (\<forall>t\<in>set (take (Suc c) tr). set (live_overlays t) \<subseteq> set (live_overlays s1))
            \<and> (\<forall>t\<in>set (drop c tr). set (live_overlays t) \<subseteq> set (live_overlays s2))"
proof -
  define s1 where "s1 = drawMultiRoutes d1 s0"
  define s2 where "s2 = drawMultiRoutes d2 s1"
  define tr where "tr = drawMultiRoutes_trace d2 s1"
  define c where "c = length (routeLayers s1)"
  have wf1: "wf_display s1" unfolding s1_def by (rule wf_drawMultiRoutes [OF assms])
  have l1: "live_overlays s1 = routeLayers s1"
    unfolding s1_def by (rule live_overlays_drawMultiRoutes [OF assms])
  have l2: "live_overlays s2 = routeLayers s2"
    unfolding s2_def by (rule live_overlays_drawMultiRoutes [OF wf1])
  have d2: "distinct (live_overlays s2)"
    unfolding l2 by (simp add: s2_def drawMultiRoutes_fields)
  have m2: "map (overlay_of s2) (live_overlays s2) = map (\<lambda>r. (geojson r, color r)) (routes d2)"
  proof -
    have "map (overlay_of s2) (routeLayers s2) = map (\<lambda>r. (geojson r, color r)) (routes d2)"
      unfolding s2_def by (rule overlay_of_drawn)
    thus ?thesis using l2 by simp
  qed
  have old: "\<forall>x\<in>set (routeLayers s1). x < next_ref s1"
    using wf1 by (simp add: wf_display_def list_all_iff)
  have gone: "set (live_overlays s1) \<inter> set (attached s2) = {}"
    unfolding l1 using old by (auto simp: s2_def drawMultiRoutes_fields)
  have lst: "last tr = s2" by (simp add: tr_def s2_def last_drawMultiRoutes_trace)
  have tk: "take (Suc c) tr = clearRoutes_trace s1"
    by (simp add: tr_def c_def drawMultiRoutes_trace_def length_clearRoutes_trace)
  have dr: "drop c tr = clearRoutes s1 #
      map (\<lambda>k. fst (fold drawRoute (take k (routes d2)) (clearRoutes s1, [])))
        [1..<Suc (length (routes d2))] @ [drawMultiRoutes d2 s1]"
    by (simp add: tr_def c_def drawMultiRoutes_trace_def clearRoutes_trace_def del: upt_Suc)
  have before: "\<forall>t\<in>set (take (Suc c) tr). set (live_overlays t) \<subseteq> set (live_overlays s1)"
    unfolding tk using clearRoutes_trace_live by blast
  have after: "\<forall>t\<in>set (drop c tr). set (live_overlays t) \<subseteq> set (live_overlays s2)"
    unfolding dr s2_def using drawing_states_live [OF wf1] by blast
  from l2 d2 m2 gone lst before after show ?thesis
    unfolding Let_def s1_def [symmetric] s2_def [symmetric] tr_def [symmetric] c_def [symmetric]
    by blast
qed

theorem drawMultiRoutes_twice_witness:
  "live_overlays
     (drawMultiRoutes (sample_result [sample_route 1 None (Some 1200) (Some 1)])
        (drawMultiRoutes
           (sample_result [sample_route 0 None (Some 900) (Some 3), sample_route 1 None (Some 1200) (Some 1)])
           (init_display (Some []))))
   = routeLayers
     (drawMultiRoutes (sample_result [sample_route 1 None (Some 1200) (Some 1)])
        (drawMultiRoutes
           (sample_result [sample_route 0 None (Some 900) (Some 3), sample_route 1 None (Some 1200) (Some 1)])
           (init_display (Some []))))
   \<and> wf_display (init_display (Some []))"
  using drawMultiRoutes_twice [OF wf_init_display [of "Some []"],
      of "sample_result [sample_route 0 None (Some 900) (Some 3), sample_route 1 None (Some 1200) (Some 1)]"
         "sample_result [sample_route 1 None (Some 1200) (Some 1)]"]
    wf_init_display [of "Some []"]
  by (simp add: Let_def)

section \<open>Properties of the submission flow\<close>

lemma is_marker_not_overlay: "is_marker s m \<Longrightarrow> \<not> is_overlay s m"
  by (auto simp: is_marker_def is_overlay_def split: option.splits obj.splits)

text \<open>What one call of \<^verbatim>\<open>setMarker\<close> does, for a marker variable that is in order.\<close>

lemma setMarker_props:
  assumes "marker_ok s v" and "setMarker la lo title v s = (m, s1)"
  shows "marker_at s1 (Some m) = Some (la, lo)"
    and "is_marker s1 m" and "m < next_ref s1" and "m \<in> set (attached s1)"
    and "v = Some m \<or> (v = None \<and> m = next_ref s)"
    and "next_ref s \<le> next_ref s1"
    and "set (attached s) \<subseteq> set (attached s1)"
    and "\<forall>l. l \<noteq> m \<longrightarrow> store s1 l = store s l"
    and "\<forall>l. l < next_ref s \<longrightarrow> is_overlay s1 l = is_overlay s l"
    and "\<forall>l. l < next_ref s \<longrightarrow> is_marker s l \<longrightarrow> is_marker s1 l"
    and "filter (is_overlay s1) (attached s1) = filter (is_overlay s1) (attached s)"
    and "routeLayers s1 = routeLayers s" and "originMarker s1 = originMarker s"
    and "destMarker s1 = destMarker s" and "viewport s1 = viewport s"
    and "list_all (\<lambda>l. l < next_ref s) (attached s) \<longrightarrow> list_all (\<lambda>l. l < next_ref s1) (attached s1)"
  using assms
  by (auto simp: setMarker_def Let_def marker_ok_def marker_at_def is_marker_def is_overlay_def
      list_all_iff split: option.splits obj.splits if_splits)
     (meson less_SucI)

lemma marker_at_iff:
  "marker_at s (Some m) = Some ll \<longleftrightarrow>
     (\<exists>t p. store s m = Some (MarkerObj ll t p)) \<and> m \<in> set (attached s)"
  by (auto simp: marker_at_def split: option.splits obj.splits)

lemma resolve_no_RouteCall:
  "resolve f q parsed geocode s lg = Inl (s', lg') \<Longrightarrow>
     (RouteCall a b c, t) \<in> set lg' \<Longrightarrow> (RouteCall a b c, t) \<in> set lg"
  "resolve f q parsed geocode s lg = Inr (r, lg') \<Longrightarrow>
     (RouteCall a b c, t) \<in> set lg' \<Longrightarrow> (RouteCall a b c, t) \<in> set lg"
  by (auto simp: resolve_def Let_def caught_def split: option.splits response.splits list.splits)

lemma submit_RouteCall:
  assumes "submit ov dv ms geocode fetch s = (s', lg)"
    and "(RouteCall orig dest md, t) \<in> set lg"
  shows "\<exists>o' d. t = placeMarkers o' d s
           \<and> orig = \<lparr>lat = r_lat o', lon = r_lon o'\<rparr> \<and> dest = \<lparr>lat = r_lat d, lon = r_lon d\<rparr>
           \<and> (fetch orig dest md = HttpError \<longrightarrow>
                 s' = t \<and> (Alert ''Route computation failed'', t) \<in> set lg)"
proof (cases "trim ov = [] \<or> trim dv = []")
  case True
  thus ?thesis using assms by (auto simp: submit_def Let_def)
next
  case False
  show ?thesis
  proof (cases "resolve Origin (trim ov) (tryParseLatLon (trim ov)) geocode s []")
    case (Inl r)
    obtain s1 l1 where r: "r = (s1, l1)" by (cases r)
    have "lg = l1" using assms(1) False Inl r by (simp add: submit_def Let_def)
    with resolve_no_RouteCall(1) [OF Inl [unfolded r]] assms(2) show ?thesis by fastforce
  next
    case (Inr r)
    obtain o' l1 where r: "r = (o', l1)" by (cases r)
    have n1: "(RouteCall a b c, u) \<notin> set l1" for a b c u
      using resolve_no_RouteCall(2) [OF Inr [unfolded r]] by auto
    show ?thesis
    proof (cases "resolve Destination (trim dv) (tryParseLatLon (trim dv)) geocode s l1")
      case (Inl r2)
      obtain s2 l2 where r2: "r2 = (s2, l2)" by (cases r2)
      have "lg = l2" using assms(1) False \<open>resolve Origin (trim ov) (tryParseLatLon (trim ov)) geocode s [] = Inr r\<close> r Inl r2
        by (simp add: submit_def Let_def)
      with resolve_no_RouteCall(1) [OF Inl [unfolded r2]] assms(2) n1 show ?thesis by blast
    next
      case (Inr r2)
      obtain d l2 where r2: "r2 = (d, l2)" by (cases r2)
      have n2: "(RouteCall a b c, u) \<notin> set l2" for a b c u
        using resolve_no_RouteCall(2) [OF Inr [unfolded r2]] n1 by auto
      have "t = placeMarkers o' d s
           \<and> orig = \<lparr>lat = r_lat o', lon = r_lon o'\<rparr> \<and> dest = \<lparr>lat = r_lat d, lon = r_lon d\<rparr>
           \<and> (fetch orig dest md = HttpError \<longrightarrow>
                 s' = t \<and> (Alert ''Route computation failed'', t) \<in> set lg)"
        using assms False \<open>resolve Origin (trim ov) (tryParseLatLon (trim ov)) geocode s [] = Inr r\<close> r Inr r2 n2
        by (auto simp: submit_def Let_def caught_def split: response.splits)
      thus ?thesis by blast
    qed
  qed
qed

lemma placeMarkers_props:
  assumes "wf_display s"
  shows "marker_at (placeMarkers o' d s) (originMarker (placeMarkers o' d s)) = Some (r_lat o', r_lon o')"
    and "marker_at (placeMarkers o' d s) (destMarker (placeMarkers o' d s)) = Some (r_lat d, r_lon d)"
    and "viewport (placeMarkers o' d s) = FitBounds [(r_lat o', r_lon o'), (r_lat d, r_lon d)] 40"
    and "routeLayers (placeMarkers o' d s) = routeLayers s"
    and "live_overlays (placeMarkers o' d s) = live_overlays s"
    and "map (overlay_of (placeMarkers o' d s)) (live_overlays s) = map (overlay_of s) (live_overlays s)"
    and "wf_display (placeMarkers o' d s)"
proof -
  have mo: "marker_ok s (originMarker s)" and md: "marker_ok s (destMarker s)"
    and ne: "originMarker s = None \<or> originMarker s \<noteq> destMarker s"
    and bound: "list_all (\<lambda>l. l < next_ref s) (attached s)"
    using assms by (simp_all add: wf_display_def)
  obtain om s1 where 1: "setMarker (r_lat o') (r_lon o') (''Origin: '' @ display o') (originMarker s) s = (om, s1)"
    by fastforce
  note p1 = setMarker_props [OF mo 1]
  define s2 where "s2 = s1\<lparr>originMarker := Some om\<rparr>"
  have md2: "marker_ok s2 (destMarker s2)"
  proof (cases "destMarker s")
    case None
    thus ?thesis using p1(14) by (simp add: s2_def marker_ok_def)
  next
    case (Some x)
    with md have "x < next_ref s" "is_marker s x" "x \<in> set (attached s)"
      by (simp_all add: marker_ok_def)
    thus ?thesis using p1(6,7,10,14) Some
      by (auto simp: s2_def marker_ok_def is_marker_def)
  qed
  obtain dm s3 where 2: "setMarker (r_lat d) (r_lon d) (''Destination: '' @ display d) (destMarker s2) s2 = (dm, s3)"
    by fastforce
  note p2 = setMarker_props [OF md2 2]
  define s4 where "s4 = s3\<lparr>destMarker := Some dm\<rparr>"
  have pm: "placeMarkers o' d s = fitToMarkers s4"
    by (simp only: placeMarkers_def Let_def 1 prod.case s2_def [symmetric] 2 s4_def)
  have diff: "om \<noteq> dm"
  proof (cases "destMarker s")
    case None
    hence "dm = next_ref s2" using p2(5) p1(14) by (simp add: s2_def)
    thus ?thesis using p1(3) by (simp add: s2_def)
  next
    case (Some x)
    hence dmx: "dm = x" using p2(5) p1(14) by (simp add: s2_def)
    have "x < next_ref s" using md Some by (simp add: marker_ok_def)
    thus ?thesis using p1(5) ne Some dmx by auto
  qed
  obtain t1 q1 where so: "store s1 om = Some (MarkerObj (r_lat o', r_lon o') t1 q1)"
    and ao: "om \<in> set (attached s1)"
    using p1(1) by (auto simp: marker_at_iff)
  obtain t2 q2 where sd: "store s3 dm = Some (MarkerObj (r_lat d, r_lon d) t2 q2)"
    and ad: "dm \<in> set (attached s3)"
    using p2(1) by (auto simp: marker_at_iff)
  have so3: "store s3 om = Some (MarkerObj (r_lat o', r_lon o') t1 q1)"
    using p2(8) diff so by (simp add: s2_def)
  have ao3: "om \<in> set (attached s3)" using p2(7) ao by (auto simp: s2_def)
  have om3: "originMarker s3 = Some om" using p2(13) by (simp add: s2_def)
  have pts: "marker_points s4 (originMarker s4) @ marker_points s4 (destMarker s4)
             = [(r_lat o', r_lon o'), (r_lat d, r_lon d)]"
    by (simp add: s4_def om3 marker_points_def layer_points_def so3 sd)
  have fit: "fitToMarkers s4 = s4\<lparr>viewport := FitBounds [(r_lat o', r_lon o'), (r_lat d, r_lon d)] 40\<rparr>"
    by (simp add: fitToMarkers_def pts)
  show "marker_at (placeMarkers o' d s) (originMarker (placeMarkers o' d s)) = Some (r_lat o', r_lon o')"
    unfolding pm fit by (simp add: s4_def om3 marker_at_def so3 ao3)
  show "marker_at (placeMarkers o' d s) (destMarker (placeMarkers o' d s)) = Some (r_lat d, r_lon d)"
    unfolding pm fit by (simp add: s4_def marker_at_def sd ad)
  show "viewport (placeMarkers o' d s) = FitBounds [(r_lat o', r_lon o'), (r_lat d, r_lon d)] 40"
    unfolding pm fit by simp
  show "routeLayers (placeMarkers o' d s) = routeLayers s"
    unfolding pm fit using p1(12) p2(12) by (simp add: s4_def s2_def)
  have b1: "list_all (\<lambda>l. l < next_ref s1) (attached s1)" using p1(16) bound by simp
  have ov1: "is_overlay s1 l = is_overlay s l" if "l \<in> set (attached s)" for l
    using p1(9) bound that by (auto simp: list_all_iff)
  have ov3: "is_overlay s3 l = is_overlay s1 l" if "l \<in> set (attached s1)" for l
    using p2(9) b1 that by (auto simp: list_all_iff s2_def is_overlay_def)
  have "live_overlays s3 = filter (is_overlay s3) (attached s1)"
    using p2(11) by (simp add: live_overlays_def s2_def)
  also have "\<dots> = filter (is_overlay s1) (attached s1)"
    using ov3 by (auto intro: filter_cong)
  also have "\<dots> = filter (is_overlay s1) (attached s)" by (rule p1(11))
  also have "\<dots> = live_overlays s"
    unfolding live_overlays_def using ov1 by (auto intro: filter_cong)
  finally have l3: "live_overlays s3 = live_overlays s" .
  have "is_overlay (s4\<lparr>viewport := FitBounds [(r_lat o', r_lon o'), (r_lat d, r_lon d)] 40\<rparr>)
        = is_overlay s3"
    by (rule ext) (simp add: s4_def is_overlay_def)
  hence "live_overlays (placeMarkers o' d s) = live_overlays s3"
    unfolding pm fit by (simp add: live_overlays_def) (simp add: s4_def)
  thus "live_overlays (placeMarkers o' d s) = live_overlays s" using l3 by simp
  have same: "overlay_of (placeMarkers o' d s) l = overlay_of s l" if "l \<in> set (live_overlays s)" for l
  proof -
    from that have la: "l \<in> set (attached s)" and lo: "is_overlay s l" by (simp_all add: live_overlays_def)
    have l1: "is_overlay s1 l" using ov1 la lo by simp
    have "l \<noteq> om" using l1 p1(2) is_marker_not_overlay by blast
    hence e1: "store s1 l = store s l" using p1(8) by simp
    have "l \<in> set (attached s1)" using la p1(7) by auto
    hence "is_overlay s3 l" using ov3 l1 by simp
    hence "l \<noteq> dm" using p2(2) is_marker_not_overlay by blast
    hence "store s3 l = store s1 l" using p2(8) by (simp add: s2_def)
    thus ?thesis unfolding pm fit using e1 by (simp add: s4_def overlay_of_def)
  qed
  thus "map (overlay_of (placeMarkers o' d s)) (live_overlays s) = map (overlay_of s) (live_overlays s)"
    by simp
  have w1: "list_all (\<lambda>l. l < next_ref s4) (attached s4)"
    using p2(16) b1 by (simp add: s4_def s2_def)
  have "\<forall>l\<in>set (routeLayers s). l < next_ref s"
    using assms by (simp add: wf_display_def list_all_iff)
  hence w2: "list_all (\<lambda>l. l < next_ref s4) (routeLayers s4)"
    using p1(6,12) p2(6,12) by (fastforce simp: s4_def s2_def list_all_iff)
  have w3: "set (live_overlays s3) = set (routeLayers s4)"
    using l3 assms p1(12) p2(12) by (simp add: wf_display_def s4_def s2_def)
  have w4: "marker_ok s3 (Some om)"
    using so3 ao3 p1(3) p2(6) by (simp add: marker_ok_def is_marker_def s2_def)
  have w5: "marker_ok s3 (Some dm)"
    using p2(2,3,4) by (simp add: marker_ok_def)
  have mk: "marker_ok (s4\<lparr>viewport := FitBounds [(r_lat o', r_lon o'), (r_lat d, r_lon d)] 40\<rparr>) v
            = marker_ok s3 v" for v
    by (simp add: marker_ok_def is_marker_def s4_def split: option.splits)
  have lo: "live_overlays (s4\<lparr>viewport := FitBounds [(r_lat o', r_lon o'), (r_lat d, r_lon d)] 40\<rparr>)
            = live_overlays s3"
    using \<open>live_overlays (placeMarkers o' d s) = live_overlays s3\<close> by (simp add: pm fit)
  show "wf_display (placeMarkers o' d s)"
    unfolding pm fit wf_display_def mk lo
    using w1 w2 w3 w4 w5 diff om3 by (simp add: s4_def)
qed

lemma wf_submit:
  assumes "wf_display s"
  shows "wf_display (fst (submit ov dv ms geocode fetch s))"
proof -
  have stay: "resolve f q parsed geocode s lg = Inl (s1, l1) \<Longrightarrow> s1 = s" for f q parsed lg s1 l1
    by (auto simp: resolve_def Let_def caught_def split: option.splits response.splits list.splits)
  have sheet: "wf_display (u\<lparr>sheet_shown := True\<rparr>) = wf_display u" for u
    by (simp add: wf_display_def live_overlays_def is_overlay_def marker_ok_def is_marker_def
        split: option.splits)
  note wp = placeMarkers_props(7) [OF assms]
  show ?thesis
    using assms wp
    by (auto simp: submit_def Let_def caught_def sheet wf_drawMultiRoutes dest!: stay
        split: sum.splits response.splits prod.splits)
qed

text \<open>
  Claim C8. In a run of the submit handler from a well-formed display state, at the
  moment the route request is issued the origin and destination markers stand on the map
  at the two points of the request and the viewport has been fitted to them. When the
  answer to that request is an HTTP error, the run ends in that very state: the error is
  reported, \<^verbatim>\<open>routeLayers\<close> and the overlays on the map are those from before the
  submission, unchanged, and the two markers are still on the map.
\<close>

theorem submit_route_failure:
  assumes "wf_display s" and "submit ov dv ms geocode fetch s = (s', lg)"
    and "(RouteCall orig dest md, t) \<in> set lg"
  shows "marker_at t (originMarker t) = Some (lat orig, lon orig)
         \<and> marker_at t (destMarker t) = Some (lat dest, lon dest)
         \<and> viewport t = FitBounds [(lat orig, lon orig), (lat dest, lon dest)] 40
         \<and> live_overlays t = live_overlays s
         \<and> (fetch orig dest md = HttpError \<longrightarrow>
               s' = t
               \<and> Alert ''Route computation failed'' \<in> set (events (s', lg))
               \<and> routeLayers s' = routeLayers s
               \<and> live_overlays s' = live_overlays s
               \<and> map (overlay_of s') (live_overlays s') = map (overlay_of s) (live_overlays s)
               \<and> marker_at s' (originMarker s') = Some (lat orig, lon orig)
               \<and> marker_at s' (destMarker s') = Some (lat dest, lon dest))"
proof -
  from submit_RouteCall [OF assms(2,3)] obtain o' d
    where t: "t = placeMarkers o' d s"
      and o: "orig = \<lparr>lat = r_lat o', lon = r_lon o'\<rparr>"
      and d: "dest = \<lparr>lat = r_lat d, lon = r_lon d\<rparr>"
      and f: "fetch orig dest md = HttpError \<longrightarrow>
                s' = t \<and> (Alert ''Route computation failed'', t) \<in> set lg"
    by blast
  note p = placeMarkers_props [OF assms(1), of o' d]
  have 1: "marker_at t (originMarker t) = Some (lat orig, lon orig)"
    and 2: "marker_at t (destMarker t) = Some (lat dest, lon dest)"
    and 3: "viewport t = FitBounds [(lat orig, lon orig), (lat dest, lon dest)] 40"
    and 4: "live_overlays t = live_overlays s"
    and 5: "routeLayers t = routeLayers s"
    and 6: "map (overlay_of t) (live_overlays t) = map (overlay_of s) (live_overlays s)"
    using p by (simp_all add: t o d)
  have "Alert ''Route computation failed'' \<in> set (events (s', lg))"
    if "fetch orig dest md = HttpError"
    using f that by (force simp: events_def)
  with 1 2 3 4 5 6 f show ?thesis by auto
qed

theorem submit_route_failure_witness:
  "live_overlays
     (fst (submit ''38.64,-90.29'' ''38.60,-90.20'' (Some ''walk'') (\<lambda>_ _. HttpError) (\<lambda>_ _ _. HttpError)
        (drawMultiRoutes (sample_result [sample_route 0 None (Some 900) (Some 3)]) (init_display (Some [])))))
   = live_overlays
       (drawMultiRoutes (sample_result [sample_route 0 None (Some 900) (Some 3)]) (init_display (Some [])))
   \<and> Alert ''Route computation failed''
       \<in> set (events (submit ''38.64,-90.29'' ''38.60,-90.20'' (Some ''walk'') (\<lambda>_ _. HttpError) (\<lambda>_ _ _. HttpError)
        (drawMultiRoutes (sample_result [sample_route 0 None (Some 900) (Some 3)]) (init_display (Some [])))))"
proof -
  let ?s = "drawMultiRoutes (sample_result [sample_route 0 None (Some 900) (Some 3)]) (init_display (Some []))"
  let ?f = "\<lambda>(_::latlon) (_::latlon) (_::string). (HttpError :: route_result response)"
  obtain s' lg where r: "submit ''38.64,-90.29'' ''38.60,-90.20'' (Some ''walk'') (\<lambda>_ _. HttpError) ?f ?s = (s', lg)"
    by fastforce
  have wf: "wf_display ?s" by (rule wf_drawMultiRoutes [OF wf_init_display])
  have tr: "trim ''38.64,-90.29'' = ''38.64,-90.29''" "trim ''38.60,-90.20'' = ''38.60,-90.20''"
    by code_simp+
  have p: "tryParseLatLon ''38.64,-90.29'' = Some \<lparr>lat = 3864 / 100, lon = - (9029 / 100)\<rparr>"
    "tryParseLatLon ''38.60,-90.20'' = Some \<lparr>lat = 3860 / 100, lon = - (9020 / 100)\<rparr>"
    by code_simp+
  have "\<exists>t. (RouteCall \<lparr>lat = 3864 / 100, lon = - (9029 / 100)\<rparr>
                \<lparr>lat = 3860 / 100, lon = - (9020 / 100)\<rparr> ''walk'', t) \<in> set lg"
    using r by (auto simp: submit_def Let_def tr p resolve_def caught_def)
  then obtain t where m: "(RouteCall \<lparr>lat = 3864 / 100, lon = - (9029 / 100)\<rparr>
                \<lparr>lat = 3860 / 100, lon = - (9020 / 100)\<rparr> ''walk'', t) \<in> set lg" ..
  from submit_route_failure [OF wf r m]
  have "live_overlays s' = live_overlays ?s"
    and "Alert ''Route computation failed'' \<in> set (events (s', lg))"
    by blast+
  thus ?thesis using r by simp
qed

end
